theory Spec2Isabelle
  imports Main "HOL-Library.Sublist"
begin

section \<open>Strings and exceptions of the Python source\<close>

text \<open>
  A Python \<open>str\<close> is modelled as a \<open>string\<close>: one \<open>char\<close> per character of the
  input. The Cyrillic literals of the source's exception messages are written as their
  UTF-8 bytes; every substring test the source makes on a message has an ASCII needle, so
  the tests give the same answer on the bytes as on the characters.

  Exceptions are values. \<open>str_of\<close> is Python's \<open>str(e)\<close>.
\<close>

datatype exn =
    ValueError string
  | IndexError
  | ConnectionError string
  | OtherError string

fun str_of :: "exn \<Rightarrow> string" where
  "str_of (ValueError m) = m"
| "str_of IndexError = ''string index out of range''"
| "str_of (ConnectionError m) = m"
| "str_of (OtherError m) = m"

text \<open>
  \<open>str.lower()\<close> on the ASCII letters; every other character is left as it is. Python
  maps a character beyond ASCII to itself or to characters beyond ASCII, and the source
  only compares the result with ASCII names, so the comparisons come out the same.
\<close>

definition lower_char :: "char \<Rightarrow> char" where
  "lower_char c =
     (if 65 \<le> (of_char c :: nat) \<and> (of_char c :: nat) \<le> 90
      then char_of ((of_char c :: nat) + 32) else c)"

definition lower :: "string \<Rightarrow> string" where
  "lower s = map lower_char s"

section \<open>storage\_backend.py: the chunk size advisor\<close>

definition auto_tune_chunk_size :: "int \<Rightarrow> int \<Rightarrow> int" where
  "auto_tune_chunk_size file_size default_chunk_size =
     (let large_file_threshold = 10 * 1024 * 1024
      in if file_size > large_file_threshold then 64 * 1024 else default_chunk_size)"

section \<open>storage\_backend.py: backends and their factory\<close>

datatype backend_class = FTPBackend | FTPSBackend | SFTPBackend

text \<open>
  The fields \<open>StorageBackend.__init__\<close> sets. \<open>connection\<close> is \<open>False\<close> for the
  source's \<open>self.connection = None\<close> and \<open>True\<close> while the backend holds a live handle.
  \<open>known_hosts_path\<close> is an attribute of \<open>SFTPBackend\<close> only; the other two classes
  carry \<open>None\<close> here.
\<close>

record backend =
  cls :: backend_class
  host :: string
  port :: int
  user :: string
  password :: string
  timeout :: int
  known_hosts_path :: "string option"
  connection :: bool

definition new_backend ::
  "backend_class \<Rightarrow> string \<Rightarrow> int \<Rightarrow> string \<Rightarrow> string \<Rightarrow> int \<Rightarrow> string option \<Rightarrow> backend" where
  "new_backend c h p u pw t k =
     \<lparr>cls = c, host = h, port = p, user = u, password = pw, timeout = t,
      known_hosts_path = k, connection = False\<rparr>"

fun get_protocol_name :: "backend \<Rightarrow> string" where
  "get_protocol_name b =
     (case cls b of FTPBackend \<Rightarrow> ''ftp'' | FTPSBackend \<Rightarrow> ''ftps'' | SFTPBackend \<Rightarrow> ''sftp'')"

text \<open>
  Python's \<open>port or 21\<close>: the default replaces every falsy port, that is \<open>None\<close>
  and \<open>0\<close>.
\<close>

definition port_or :: "int option \<Rightarrow> int \<Rightarrow> int" where
  "port_or p d = (case p of None \<Rightarrow> d | Some n \<Rightarrow> if n = 0 then d else n)"

text \<open>The message of the factory's \<open>ValueError\<close>, before the protocol is appended.\<close>

definition msg_unsupported :: string where
  "msg_unsupported =
     [CHR 0xD0, CHR 0x9D, CHR 0xD0, CHR 0xB5, CHR 0xD0, CHR 0xBF, CHR 0xD0, CHR 0xBE,
      CHR 0xD0, CHR 0xB4, CHR 0xD0, CHR 0xB4, CHR 0xD0, CHR 0xB5, CHR 0xD1, CHR 0x80,
      CHR 0xD0, CHR 0xB6, CHR 0xD0, CHR 0xB8, CHR 0xD0, CHR 0xB2, CHR 0xD0, CHR 0xB0,
      CHR 0xD0, CHR 0xB5, CHR 0xD0, CHR 0xBC, CHR 0xD1, CHR 0x8B, CHR 0xD0, CHR 0xB9,
      CHR 0x20, CHR 0xD0, CHR 0xBF, CHR 0xD1, CHR 0x80, CHR 0xD0, CHR 0xBE, CHR 0xD1,
      CHR 0x82, CHR 0xD0, CHR 0xBE, CHR 0xD0, CHR 0xBA, CHR 0xD0, CHR 0xBE, CHR 0xD0,
      CHR 0xBB, CHR 0x3A, CHR 0x20]"

definition create_backend ::
  "string \<Rightarrow> string \<Rightarrow> int option \<Rightarrow> string \<Rightarrow> string \<Rightarrow> int \<Rightarrow> string option
     \<Rightarrow> exn + backend" where
  "create_backend protocol h p u pw t k =
     (if lower protocol = ''ftp'' then
        Inr (new_backend FTPBackend h (port_or p 21) u pw t None)
      else if lower protocol = ''ftps'' then
        Inr (new_backend FTPSBackend h (port_or p 990) u pw t None)
      else if lower protocol = ''sftp'' then
        Inr (new_backend SFTPBackend h (port_or p 22) u pw t k)
      else Inl (ValueError (msg_unsupported @ protocol)))"

text \<open>The default port of a recognised protocol identifier, as the spec lists them.\<close>

definition default_port :: "string \<Rightarrow> int" where
  "default_port name = (if name = ''ftp'' then 21 else if name = ''ftps'' then 990 else 22)"

section \<open>storage\_backend.py: masking a user name\<close>

text \<open>
  \<open>local[0]\<close> and \<open>user_string[0]\<close> raise \<open>IndexError\<close> on an empty string;
  \<open>user_string.split("@", 1)\<close> cuts at the first \<open>@\<close>.
\<close>

definition index0 :: "string \<Rightarrow> exn + char" where
  "index0 s = (case s of [] \<Rightarrow> Inl IndexError | c # _ \<Rightarrow> Inr c)"

definition mask_user_info :: "string \<Rightarrow> exn + string" where
  "mask_user_info user_string =
     (if user_string = [] then Inr user_string
      else if CHR ''@'' \<in> set user_string then
        (let local = takeWhile (\<lambda>c. c \<noteq> CHR ''@'') user_string;
             domain = tl (dropWhile (\<lambda>c. c \<noteq> CHR ''@'') user_string)
         in case index0 local of
              Inl e \<Rightarrow> Inl e
            | Inr c \<Rightarrow>
                (let masked_local =
                       (if length local \<le> 2 then [c, CHR ''*'']
                        else c # replicate (length local - 1) (CHR ''*''))
                 in Inr (masked_local @ [CHR ''@''] @ domain)))
      else if length user_string \<le> 2 then
        (case index0 user_string of Inl e \<Rightarrow> Inl e | Inr c \<Rightarrow> Inr [c, CHR ''*''])
      else
        (case index0 user_string of
           Inl e \<Rightarrow> Inl e
         | Inr c \<Rightarrow>
             Inr (c # replicate (length user_string - 2) (CHR ''*'') @ [last user_string])))"

section \<open>storage\_backend.py: the path sanitizer\<close>

text \<open>
  The character class \<open>[\w\-\.\/]\<close>. Python's \<open>\w\<close> is Unicode-aware: on ASCII it is
  the letters, the digits and the underscore; which characters beyond ASCII count as word
  characters is a table of the regular expression library, taken here as the parameter
  \<open>W\<close>.
\<close>

definition word_char :: "(char \<Rightarrow> bool) \<Rightarrow> char \<Rightarrow> bool" where
  "word_char W c =
     (let n = (of_char c :: nat)
      in (48 \<le> n \<and> n \<le> 57) \<or> (65 \<le> n \<and> n \<le> 90) \<or> (97 \<le> n \<and> n \<le> 122) \<or> n = 95
         \<or> (128 \<le> n \<and> W c))"

definition class_char :: "(char \<Rightarrow> bool) \<Rightarrow> char \<Rightarrow> bool" where
  "class_char W c = (word_char W c \<or> c = CHR ''-'' \<or> c = CHR ''.'' \<or> c = CHR ''/'')"

text \<open>
  \<open>re.match(r"^\/[\w\-\.\/]*$", path)\<close>. The pattern is anchored at the start, wants a
  slash, then takes characters of the class. Python's \<open>$\<close> (without \<open>re.MULTILINE\<close>)
  matches at the end of the string and also just before a newline that is the last
  character; no character of the class is a newline, so the match succeeds exactly when
  what follows the longest run of class characters is nothing or one final newline.
\<close>

definition re_match_valid_path :: "(char \<Rightarrow> bool) \<Rightarrow> string \<Rightarrow> bool" where
  "re_match_valid_path W path =
     (case path of
        [] \<Rightarrow> False
      | c # cs \<Rightarrow>
          c = CHR ''/'' \<and>
          (let rest = dropWhile (class_char W) cs in rest = [] \<or> rest = [CHR 0x0A]))"

text \<open>\<open>path.split('/')\<close> and \<open>'/'.join(comps)\<close>.\<close>

fun split_sep :: "string \<Rightarrow> string list" where
  "split_sep [] = [[]]"
| "split_sep (c # cs) =
     (if c = CHR ''/'' then [] # split_sep cs
      else (case split_sep cs of [] \<Rightarrow> [[c]] | w # ws \<Rightarrow> (c # w) # ws))"

fun join_sep :: "string list \<Rightarrow> string" where
  "join_sep [] = []"
| "join_sep [x] = x"
| "join_sep (x # y # ys) = x @ CHR ''/'' # join_sep (y # ys)"

text \<open>
  \<open>os.path.normpath\<close> of the standard library (\<open>posixpath\<close>): the loop over the
  components, with \<open>new_comps\<close> as its state, and the function around it.
\<close>

fun normpath_loop :: "nat \<Rightarrow> string list \<Rightarrow> string list \<Rightarrow> string list" where
  "normpath_loop initial_slashes [] new_comps = new_comps"
| "normpath_loop initial_slashes (component # comps) new_comps =
     (if component = [] \<or> component = ''.'' then normpath_loop initial_slashes comps new_comps
      else if component \<noteq> ''..'' \<or> (initial_slashes = 0 \<and> new_comps = [])
              \<or> (new_comps \<noteq> [] \<and> last new_comps = ''..'')
      then normpath_loop initial_slashes comps (new_comps @ [component])
      else if new_comps \<noteq> [] then normpath_loop initial_slashes comps (butlast new_comps)
      else normpath_loop initial_slashes comps new_comps)"

definition normpath :: "string \<Rightarrow> string" where
  "normpath path =
     (if path = [] then ''.''
      else
        let initial_slashes =
              (if prefix ''/'' path
               then (if prefix ''//'' path \<and> \<not> prefix ''///'' path then 2 else 1)
               else (0::nat));
            comps = normpath_loop initial_slashes (split_sep path) [];
            joined = join_sep comps;
            result = (if initial_slashes \<noteq> 0
                      then replicate initial_slashes (CHR ''/'') @ joined else joined)
        in if result = [] then ''.'' else result)"

text \<open>
  The four \<open>ValueError\<close>s of \<open>sanitize_path\<close>, named by the check that raises them.
  Its caller turns each of them into the same rejection of the request.
\<close>

datatype invalid_path = EmptyPath | BadCharacters | Traversal | DoubledSlash

definition sanitize_path :: "(char \<Rightarrow> bool) \<Rightarrow> string \<Rightarrow> invalid_path + string" where
  "sanitize_path W path =
     (if path = [] then Inl EmptyPath
      else if \<not> re_match_valid_path W path then Inl BadCharacters
      else if sublist ''..'' path then Inl Traversal
      else if sublist ''//'' path then Inl DoubledSlash
      else
        let normalized = normpath path
        in Inr (if \<not> prefix ''/'' normalized
                then CHR ''/'' # dropWhile (\<lambda>c. c = CHR ''/'') normalized
                else normalized))"

text \<open>
  The spec's description of an acceptable path, in its own words: a leading separator
  followed only by word characters, hyphens, dots and separators.
\<close>

definition spec_path_pattern :: "(char \<Rightarrow> bool) \<Rightarrow> string \<Rightarrow> bool" where
  "spec_path_pattern W path =
     (case path of [] \<Rightarrow> False | c # cs \<Rightarrow> c = CHR ''/'' \<and> list_all (class_char W) cs)"

text \<open>
  For the proofs: the components the loop of \<open>normpath\<close> keeps when none of them is
  \<open>..\<close>, a component as \<open>join\<close> wants it (not empty, no separator inside), and the
  result of \<open>normpath\<close> on a rooted path without \<open>..\<close> and without doubled separator.
\<close>

definition kept :: "string \<Rightarrow> bool" where
  "kept c = (c \<noteq> [] \<and> c \<noteq> ''.'')"

definition plain :: "string \<Rightarrow> bool" where
  "plain c = (c \<noteq> [] \<and> CHR ''/'' \<notin> set c)"

definition normal_form :: "string \<Rightarrow> string" where
  "normal_form p = CHR ''/'' # join_sep (filter kept (split_sep p))"

section \<open>The remote server, the temporary directory and the backend's methods\<close>

text \<open>
  What a run sees of the remote server, which is all a backend stub fixes:
  \<^item> \<open>connect_outcome\<close>: \<open>backend.connect()\<close> succeeds, or raises without a session
    (\<open>Refused\<close>), or raises after the server accepted the connection (\<open>Rejected\<close>: the
    login fails behind an open socket, and nothing calls \<open>quit\<close> on that path);
  \<^item> \<open>size_reply\<close>: what the library's size query does, raise or return;
  \<^item> \<open>retr_blocks\<close>: the data blocks the transfer hands to the local stream, in order;
  \<^item> \<open>retr_raises\<close>: the exception that ends the transfer after those blocks, if any.
\<close>

datatype connect_result = Connected | Refused exn | Rejected exn

record remote =
  connect_outcome :: connect_result
  size_reply :: "exn + int"
  retr_blocks :: "string list"
  retr_raises :: "exn option"

datatype call = Connect | GetFileSize | DownloadToStream | Close

text \<open>
  The state a run changes: the files of the temporary directory (path to content), the
  methods of the backend invoked so far, in order, and whether a session with the remote
  server is open.
\<close>

record world =
  files :: "string \<rightharpoonup> string"
  calls :: "call list"
  session_open :: bool

definition connect :: "remote \<Rightarrow> backend \<Rightarrow> world \<Rightarrow> (exn + backend) \<times> world" where
  "connect r b w =
     (let w1 = w\<lparr>calls := calls w @ [Connect]\<rparr>
      in case connect_outcome r of
           Connected \<Rightarrow> (Inr (b\<lparr>connection := True\<rparr>), w1\<lparr>session_open := True\<rparr>)
         | Refused e \<Rightarrow> (Inl e, w1)
         | Rejected e \<Rightarrow> (Inl e, w1\<lparr>session_open := True\<rparr>))"

text \<open>
  \<open>get_file_size\<close> of all three classes: the library's answer, and 0 when the library
  raises.
\<close>

definition get_file_size :: "remote \<Rightarrow> backend \<Rightarrow> world \<Rightarrow> int \<times> world" where
  "get_file_size r b w =
     (let w1 = w\<lparr>calls := calls w @ [GetFileSize]\<rparr>
      in case size_reply r of Inr n \<Rightarrow> (n, w1) | Inl e \<Rightarrow> (0, w1))"

text \<open>
  The write loop of \<open>download_to_stream\<close>: every block is written to the local stream and
  its length added to \<open>total_bytes\<close>.
\<close>

fun write_blocks :: "string list \<Rightarrow> string \<Rightarrow> nat \<Rightarrow> string \<times> nat" where
  "write_blocks [] content total_bytes = (content, total_bytes)"
| "write_blocks (data # rest) content total_bytes =
     write_blocks rest (content @ data) (total_bytes + length data)"

definition download_to_stream ::
  "remote \<Rightarrow> backend \<Rightarrow> string \<Rightarrow> world \<Rightarrow> (exn + nat) \<times> string \<times> world" where
  "download_to_stream r b local_stream w =
     (let w1 = w\<lparr>calls := calls w @ [DownloadToStream]\<rparr>;
          (content, total_bytes) = write_blocks (retr_blocks r) local_stream 0
      in case retr_raises r of
           Some e \<Rightarrow> (Inl e, content, w1)
         | None \<Rightarrow> (Inr total_bytes, content, w1))"

text \<open>\<open>close\<close>: quits when there is a connection, swallowing errors, and forgets it.\<close>

definition close :: "backend \<Rightarrow> world \<Rightarrow> backend \<times> world" where
  "close b w =
     (let w1 = w\<lparr>calls := calls w @ [Close]\<rparr>
      in if connection b then (b\<lparr>connection := False\<rparr>, w1\<lparr>session_open := False\<rparr>)
         else (b, w1))"

section \<open>main.py: the download pipeline\<close>

record params =
  param_host :: string
  param_user :: string
  param_password :: string
  param_path :: string
  param_file_name :: string
  param_protocol :: string

record settings =
  max_file_size :: int
  ftp_timeout :: int
  settings_known_hosts_path :: "string option"

text \<open>Python's \<open>str\<close> of an integer, as the f-strings of the messages render it.\<close>

definition digit_char :: "nat \<Rightarrow> char" where
  "digit_char d = ''0123456789'' ! d"

function str_nat :: "nat \<Rightarrow> string" where
  "str_nat n = (if n < 10 then [digit_char n] else str_nat (n div 10) @ [digit_char (n mod 10)])"
  by pat_completeness auto
termination
  by (relation "measure id") auto

declare str_nat.simps [simp del]

definition str_int :: "int \<Rightarrow> string" where
  "str_int i = (if i < 0 then CHR ''-'' # str_nat (nat (- i)) else str_nat (nat i))"

text \<open>
  The message of the \<open>ValueError\<close> raised when the reported size exceeds the ceiling: two
  Cyrillic literals around the two numbers, and a closing parenthesis.
\<close>

definition msg_too_large_1 :: string where
  "msg_too_large_1 =
     [CHR 0xD0, CHR 0xA4, CHR 0xD0, CHR 0xB0, CHR 0xD0, CHR 0xB9, CHR 0xD0, CHR 0xBB,
      CHR 0x20, CHR 0xD1, CHR 0x81, CHR 0xD0, CHR 0xBB, CHR 0xD0, CHR 0xB8, CHR 0xD1,
      CHR 0x88, CHR 0xD0, CHR 0xBA, CHR 0xD0, CHR 0xBE, CHR 0xD0, CHR 0xBC, CHR 0x20,
      CHR 0xD0, CHR 0xB1, CHR 0xD0, CHR 0xBE, CHR 0xD0, CHR 0xBB, CHR 0xD1, CHR 0x8C,
      CHR 0xD1, CHR 0x88, CHR 0xD0, CHR 0xBE, CHR 0xD0, CHR 0xB9, CHR 0x3A, CHR 0x20]"

definition msg_too_large_2 :: string where
  "msg_too_large_2 =
     [CHR 0x20, CHR 0xD0, CHR 0xB1, CHR 0xD0, CHR 0xB0, CHR 0xD0, CHR 0xB9, CHR 0xD1,
      CHR 0x82, CHR 0x20, CHR 0x28, CHR 0xD0, CHR 0xBC, CHR 0xD0, CHR 0xB0, CHR 0xD0,
      CHR 0xBA, CHR 0xD1, CHR 0x81, CHR 0xD0, CHR 0xB8, CHR 0xD0, CHR 0xBC, CHR 0xD1,
      CHR 0x83, CHR 0xD0, CHR 0xBC, CHR 0x3A, CHR 0x20]"

definition too_large :: "int \<Rightarrow> int \<Rightarrow> exn" where
  "too_large file_size maximum =
     ValueError (msg_too_large_1 @ str_int file_size @ msg_too_large_2 @ str_int maximum @ '')'')"

text \<open>
  The \<open>HTTPException\<close>s the pipeline raises: the status code and the detail. A detail is
  named by the f-string that builds it and carries that f-string's arguments (for
  \<open>ProtocolFailure\<close> the protocol, which the text shows in capitals, and \<open>str(e)\<close>).
\<close>

datatype detail =
    DownloadedFileEmpty
  | CannotConnect string
  | AuthorizationFailed string
  | FileNotFound string
  | HostKeyUnknown
  | ProtocolFailure string string

datatype failure = HTTPException int detail | Uncaught exn

text \<open>
  \<open>storage_operations\<close>, the function handed to the executor. Leaving the \<open>with backend\<close>
  block, by \<open>return\<close> or by an exception, runs \<open>__exit__\<close> and so \<open>close\<close>; an
  exception of \<open>__enter__\<close> (of \<open>connect\<close>) does not. \<open>open(temp_file, 'wb')\<close> truncates
  the file, and the stream's content is the file's when the inner block is left.
\<close>

definition storage_operations ::
  "settings \<Rightarrow> remote \<Rightarrow> params \<Rightarrow> string \<Rightarrow> world \<Rightarrow> (exn + nat) \<times> world" where
  "storage_operations s r ps temp_file w =
     (case create_backend (param_protocol ps) (param_host ps) None (param_user ps)
             (param_password ps) (ftp_timeout s) (settings_known_hosts_path s) of
        Inl e \<Rightarrow> (Inl e, w)
      | Inr backend0 \<Rightarrow>
          (case connect r backend0 w of
             (Inl e, w1) \<Rightarrow> (Inl e, w1)
           | (Inr backend1, w1) \<Rightarrow>
               (let (file_size, w2) = get_file_size r backend1 w1
                in if file_size > max_file_size s then
                     (let (backend2, w3) = close backend1 w2
                      in (Inl (too_large file_size (max_file_size s)), w3))
                   else
                     (let (res, content, w3) = download_to_stream r backend1 [] w2;
                          w4 = w3\<lparr>files := (files w3)(temp_file \<mapsto> content)\<rparr>;
                          (backend2, w5) = close backend1 w4
                      in (res, w5)))))"

definition unlink_if_exists :: "string \<Rightarrow> world \<Rightarrow> world" where
  "unlink_if_exists temp_file w =
     (if temp_file \<in> dom (files w) then w\<lparr>files := (files w)(temp_file := None)\<rparr> else w)"

text \<open>
  The \<open>except Exception\<close> handler: the temporary file is removed, the user name is masked
  for the log (which can raise again, out of the handler), and the exception is mapped to
  an \<open>HTTPException\<close> by the substrings of its message.
\<close>

definition handle_exception :: "params \<Rightarrow> string \<Rightarrow> exn \<Rightarrow> world \<Rightarrow> failure \<times> world" where
  "handle_exception ps temp_file e w =
     (let w1 = unlink_if_exists temp_file w
      in case mask_user_info (param_user ps) of
           Inl e2 \<Rightarrow> (Uncaught e2, w1)
         | Inr masked_user \<Rightarrow>
             (if sublist ''Name or service not known'' (str_of e)
                 \<or> sublist ''Connection refused'' (str_of e)
              then (HTTPException 500 (CannotConnect (param_host ps)), w1)
              else if sublist ''530'' (str_of e) \<or> sublist ''Login incorrect'' (str_of e)
                      \<or> sublist ''Authentication'' (str_of e)
              then (HTTPException 401 (AuthorizationFailed (param_host ps)), w1)
              else if sublist ''550'' (str_of e) \<or> sublist ''No such file'' (str_of e)
              then (HTTPException 404 (FileNotFound (param_path ps)), w1)
              else if sublist ''not found in known_hosts'' (str_of e)
              then (HTTPException 400 HostKeyUnknown, w1)
              else (HTTPException 500 (ProtocolFailure (param_protocol ps) (str_of e)), w1)))"

text \<open>
  \<open>os.path.getsize\<close> raises \<open>FileNotFoundError\<close> on a missing file, with this message.
\<close>

definition file_not_found :: "string \<Rightarrow> exn" where
  "file_not_found path =
     OtherError (''[Errno 2] No such file or directory: '' @ [CHR 0x27] @ path @ [CHR 0x27])"

text \<open>
  \<open>download_with_storage_backend\<close>. \<open>temp_file\<close> is the name \<open>mkstemp\<close> picks; it creates
  the file empty. The result is the pair of the file's path and its measured size.
\<close>

definition download_with_storage_backend ::
  "settings \<Rightarrow> remote \<Rightarrow> params \<Rightarrow> string \<Rightarrow> world \<Rightarrow> (failure + string \<times> nat) \<times> world" where
  "download_with_storage_backend s r ps temp_file w =
     (let w1 = w\<lparr>files := (files w)(temp_file \<mapsto> [])\<rparr>
      in case mask_user_info (param_user ps) of
           Inl e \<Rightarrow> (case handle_exception ps temp_file e w1 of (f, w') \<Rightarrow> (Inl f, w'))
         | Inr masked_user \<Rightarrow>
             (case storage_operations s r ps temp_file w1 of
                (Inl e, w2) \<Rightarrow>
                  (case handle_exception ps temp_file e w2 of (f, w') \<Rightarrow> (Inl f, w'))
              | (Inr downloaded_bytes, w2) \<Rightarrow>
                  (case files w2 temp_file of
                     None \<Rightarrow>
                       (case handle_exception ps temp_file (file_not_found temp_file) w2
                        of (f, w') \<Rightarrow> (Inl f, w'))
                   | Some content \<Rightarrow>
                       (let actual_file_size = length content
                        in if actual_file_size = 0
                           then (Inl (HTTPException 500 DownloadedFileEmpty),
                                 unlink_if_exists temp_file w2)
                           else (Inr (temp_file, actual_file_size), w2)))))"

text \<open>
  How the spec's taxonomy reads a failure of the pipeline. The too-large failure reaches
  the caller as the handler's last branch, carrying the message of \<open>too_large\<close>.
\<close>

definition is_FileTooLarge :: "params \<Rightarrow> int \<Rightarrow> int \<Rightarrow> failure \<Rightarrow> bool" where
  "is_FileTooLarge ps file_size maximum f =
     (f = HTTPException 500 (ProtocolFailure (param_protocol ps) (str_of (too_large file_size maximum))))"

definition is_EmptyTransfer :: "failure \<Rightarrow> bool" where
  "is_EmptyTransfer f = (f = HTTPException 500 DownloadedFileEmpty)"

section \<open>Notions of the spec and example inputs\<close>

text \<open>The size the backend reports to the pipeline: 0 stands for a failed query.\<close>

definition reported_size :: "remote \<Rightarrow> int" where
  "reported_size r = (case size_reply r of Inr n \<Rightarrow> n | Inl e \<Rightarrow> 0)"

text \<open>
  Case-insensitive recognition, stated without \<open>lower\<close>: an identifier matches a
  lower-case name when it has the name's length and each of its characters is the name's
  character or that character's capital (32 code points below it).
\<close>

definition ascii_lower_letter :: "char \<Rightarrow> bool" where
  "ascii_lower_letter d = (97 \<le> (of_char d :: nat) \<and> (of_char d :: nat) \<le> 122)"

definition same_letter :: "char \<Rightarrow> char \<Rightarrow> bool" where
  "same_letter c d = (c = d \<or> (of_char c :: nat) + 32 = of_char d)"

definition matches_ignoring_case :: "string \<Rightarrow> string \<Rightarrow> bool" where
  "matches_ignoring_case s name = list_all2 same_letter s name"

definition recognised :: "string \<Rightarrow> bool" where
  "recognised protocol =
     (matches_ignoring_case protocol ''ftp'' \<or> matches_ignoring_case protocol ''ftps''
      \<or> matches_ignoring_case protocol ''sftp'')"

text \<open>
  A run gets as far as an open session when the user name can be masked for the log, the
  factory knows the protocol and \<open>connect\<close> succeeds.
\<close>

definition session_opened :: "remote \<Rightarrow> params \<Rightarrow> bool" where
  "session_opened r ps =
     (\<not> isl (mask_user_info (param_user ps)) \<and> recognised (param_protocol ps)
      \<and> connect_outcome r = Connected)"

text \<open>
  The defaults of config.py, a request, an empty temporary directory with no call made
  yet, and a backend stub that connects, reports a size, streams the given blocks and
  then returns or raises.
\<close>

definition default_settings :: settings where
  "default_settings =
     \<lparr>max_file_size = 1073741824, ftp_timeout = 30, settings_known_hosts_path = None\<rparr>"

definition example_params :: params where
  "example_params =
     \<lparr>param_host = ''files.example.com'', param_user = ''johndoe'', param_password = ''secret'',
      param_path = ''/reports/data.csv'', param_file_name = ''data.csv'',
      param_protocol = ''ftp''\<rparr>"

definition fresh_world :: world where
  "fresh_world = \<lparr>files = Map.empty, calls = [], session_open = False\<rparr>"

definition stub :: "int \<Rightarrow> string list \<Rightarrow> exn option \<Rightarrow> remote" where
  "stub n blocks e =
     \<lparr>connect_outcome = Connected, size_reply = Inr n, retr_blocks = blocks, retr_raises = e\<rparr>"

text \<open>
  The exception \<open>FTPBackend.connect\<close> raises when the library raises \<open>e\<close>: a
  \<open>ConnectionError\<close> whose message is a Cyrillic literal followed by \<open>str(e)\<close>. And a
  server that accepts the connection and answers the login with 530: the library raises
  from \<open>login\<close>, after \<open>connect\<close> has opened the socket.
\<close>

definition msg_cannot_connect_ftp :: string where
  "msg_cannot_connect_ftp =
     [CHR 0xD0, CHR 0x9D, CHR 0xD0, CHR 0xB5, CHR 0x20, CHR 0xD1, CHR 0x83, CHR 0xD0,
      CHR 0xB4, CHR 0xD0, CHR 0xB0, CHR 0xD0, CHR 0xBB, CHR 0xD0, CHR 0xBE, CHR 0xD1,
      CHR 0x81, CHR 0xD1, CHR 0x8C, CHR 0x20, CHR 0xD0, CHR 0xBF, CHR 0xD0, CHR 0xBE,
      CHR 0xD0, CHR 0xB4, CHR 0xD0, CHR 0xBA, CHR 0xD0, CHR 0xBB, CHR 0xD1, CHR 0x8E,
      CHR 0xD1, CHR 0x87, CHR 0xD0, CHR 0xB8, CHR 0xD1, CHR 0x82, CHR 0xD1, CHR 0x8C,
      CHR 0xD1, CHR 0x81, CHR 0xD1, CHR 0x8F, CHR 0x20, CHR 0xD0, CHR 0xBA, CHR 0x20,
      CHR 0x46, CHR 0x54, CHR 0x50, CHR 0x20, CHR 0xD1, CHR 0x81, CHR 0xD0, CHR 0xB5,
      CHR 0xD1, CHR 0x80, CHR 0xD0, CHR 0xB2, CHR 0xD0, CHR 0xB5, CHR 0xD1, CHR 0x80,
      CHR 0xD1, CHR 0x83, CHR 0x3A, CHR 0x20]"

definition ftp_connect_error :: "string \<Rightarrow> exn" where
  "ftp_connect_error e = ConnectionError (msg_cannot_connect_ftp @ e)"

definition rejected_login :: remote where
  "rejected_login =
     \<lparr>connect_outcome = Rejected (ftp_connect_error ''530 Login incorrect.''),
      size_reply = Inr 2048, retr_blocks = [''data''], retr_raises = None\<rparr>"

section \<open>Properties of the utilities and the factory\<close>

lemma lower_char_eq:
  assumes "ascii_lower_letter d"
  shows "lower_char c = d \<longleftrightarrow> same_letter c d"
proof (cases "65 \<le> (of_char c :: nat) \<and> (of_char c :: nat) \<le> 90")
  case True
  then have "(of_char (char_of ((of_char c :: nat) + 32)) :: nat) = of_char c + 32"
    by (simp add: of_char_of)
  moreover have "c \<noteq> d"
    using True assms by (auto simp: ascii_lower_letter_def)
  ultimately show ?thesis
    using True unfolding lower_char_def same_letter_def by (metis char_of_char)
next
  case False
  then show ?thesis
    using assms unfolding lower_char_def same_letter_def ascii_lower_letter_def by auto
qed

lemma lower_eq_iff:
  "list_all ascii_lower_letter name \<Longrightarrow> lower p = name \<longleftrightarrow> matches_ignoring_case p name"
proof (induction name arbitrary: p)
  case Nil
  then show ?case by (simp add: lower_def matches_ignoring_case_def)
next
  case (Cons d ds)
  then show ?case
    by (cases p) (auto simp: lower_def matches_ignoring_case_def lower_char_eq)
qed

lemma recognised_iff:
  "recognised p \<longleftrightarrow> lower p = ''ftp'' \<or> lower p = ''ftps'' \<or> lower p = ''sftp''"
proof -
  have "list_all ascii_lower_letter ''ftp''" "list_all ascii_lower_letter ''ftps''"
    "list_all ascii_lower_letter ''sftp''"
    by (simp_all add: ascii_lower_letter_def)
  then show ?thesis
    unfolding recognised_def by (simp only: lower_eq_iff)
qed

text \<open>
  Claim C9. For every file size and default chunk size, the advisor returns 65536 when
  the file size is strictly greater than 10 * 1024 * 1024, and the default unchanged
  otherwise, also at exactly 10 MiB. The function is a total HOL function of its two
  arguments, so it is pure and deterministic.
\<close>

theorem C9_auto_tune_chunk_size:
  "auto_tune_chunk_size file_size default_chunk =
     (if file_size > 10 * 1024 * 1024 then 65536 else default_chunk)
   \<and> auto_tune_chunk_size (10 * 1024 * 1024) default_chunk = default_chunk
   \<and> auto_tune_chunk_size (20 * 1024 * 1024) 8192 = 65536
   \<and> auto_tune_chunk_size 1024 8192 = 8192"
  by (simp add: auto_tune_chunk_size_def)

text \<open>
  Claim C8. The factory recognises exactly the identifiers ftp, ftps and sftp, whatever
  the case of their letters. For a recognised identifier it returns a backend of the
  matching class: its protocol name is the lower-cased identifier, its port is the
  protocol's default (21, 990, 22) when no port is supplied, and it holds no connection.
  For every other identifier it fails with the \<open>ValueError\<close> for an unsupported protocol.
\<close>

theorem C8_create_backend:
  "(recognised protocol \<longrightarrow>
      (\<exists>b. create_backend protocol h p u pw t k = Inr b
           \<and> get_protocol_name b = lower protocol
           \<and> matches_ignoring_case protocol (get_protocol_name b)
           \<and> (p = None \<longrightarrow> port b = default_port (get_protocol_name b))
           \<and> \<not> connection b))
   \<and> (\<not> recognised protocol \<longrightarrow>
        create_backend protocol h p u pw t k = Inl (ValueError (msg_unsupported @ protocol)))"
proof -
  have m: "\<And>n. list_all ascii_lower_letter n \<Longrightarrow> lower protocol = n
             \<Longrightarrow> matches_ignoring_case protocol n"
    by (simp add: lower_eq_iff)
  have l: "list_all ascii_lower_letter ''ftp''" "list_all ascii_lower_letter ''ftps''"
    "list_all ascii_lower_letter ''sftp''"
    by (simp_all add: ascii_lower_letter_def)
  show ?thesis
    using m[OF l(1)] m[OF l(2)] m[OF l(3)]
    by (auto simp: recognised_iff create_backend_def new_backend_def port_or_def default_port_def)
qed

theorem C8_create_backend_witness:
  "recognised ''SFTP'' \<and>
   (\<exists>b. create_backend ''SFTP'' ''h'' None ''u'' ''p'' 30 None = Inr b
        \<and> get_protocol_name b = ''sftp'' \<and> port b = 22 \<and> \<not> connection b)
   \<and> \<not> recognised ''http''
   \<and> create_backend ''http'' ''h'' None ''u'' ''p'' 30 None
       = Inl (ValueError (msg_unsupported @ ''http''))"
proof -
  have lw: "lower ''SFTP'' = ''sftp''"
    by code_simp
  have r: "recognised ''SFTP''" "\<not> recognised ''http''"
    by code_simp+
  from r C8_create_backend[of "''SFTP''" "''h''" None "''u''" "''p''" 30 None]
    C8_create_backend[of "''http''" "''h''" None "''u''" "''p''" 30 None]
  show ?thesis
    by (auto simp: lw default_port_def)
qed

text \<open>
  Claim C10. For every recognised protocol, the factory called with port 0 yields a
  backend whose port is the protocol's default and not 0: the very backend it yields
  when no port is given.
\<close>

theorem C10_port_zero:
  "recognised protocol \<Longrightarrow>
     \<exists>b. create_backend protocol h (Some 0) u pw t k = Inr b
         \<and> port b = default_port (lower protocol) \<and> port b \<noteq> 0
         \<and> create_backend protocol h None u pw t k = Inr b"
  by (auto simp: recognised_iff create_backend_def new_backend_def port_or_def default_port_def)

theorem C10_port_zero_witness:
  "recognised ''ftp'' \<and> recognised ''ftps'' \<and> recognised ''sftp''
   \<and> (\<exists>b. create_backend ''ftp'' ''h'' (Some 0) ''u'' ''p'' 30 None = Inr b \<and> port b = 21)
   \<and> (\<exists>b. create_backend ''ftps'' ''h'' (Some 0) ''u'' ''p'' 30 None = Inr b \<and> port b = 990)
   \<and> (\<exists>b. create_backend ''sftp'' ''h'' (Some 0) ''u'' ''p'' 30 None = Inr b \<and> port b = 22)"
proof -
  have r: "recognised ''ftp''" "recognised ''ftps''" "recognised ''sftp''"
    by (simp_all add: recognised_iff lower_def lower_char_def)
  have lw: "lower ''ftp'' = ''ftp''" "lower ''ftps'' = ''ftps''" "lower ''sftp'' = ''sftp''"
    by (simp_all add: lower_def lower_char_def)
  from C10_port_zero[OF r(1), of "''h''" "''u''" "''p''" 30 None]
    C10_port_zero[OF r(2), of "''h''" "''u''" "''p''" 30 None]
    C10_port_zero[OF r(3), of "''h''" "''u''" "''p''" 30 None]
  show ?thesis
    using r by (auto simp: lw default_port_def)
qed

subsection \<open>Masking\<close>

text \<open>The examples of the spec, and the empty string, which the first guard returns.\<close>

lemma mask_user_info_examples:
  "mask_user_info ''jo@example.com'' = Inr ''j*@example.com''"
  "mask_user_info ''johndoe'' = Inr ''j*****e''"
  "mask_user_info ''ab'' = Inr ''a*''"
  "mask_user_info [] = Inr []"
  by (simp_all add: mask_user_info_def index0_def)

text \<open>The function raises exactly on the strings that start with \<open>@\<close>.\<close>

lemma mask_user_info_fails_iff:
  "(\<exists>e. mask_user_info u = Inl e) \<longleftrightarrow> (\<exists>d. u = CHR ''@'' # d)"
  by (cases u) (auto simp: mask_user_info_def index0_def Let_def split: list.splits sum.splits)

text \<open>
  Claim C7 says that masking returns a string for every input, an empty local part before
  \<open>@\<close> included. On such an input the source evaluates \<open>local[0]\<close> on the empty local
  part: the call raises \<open>IndexError\<close> and returns nothing.
\<close>

theorem C7_mask_user_info_empty_local_part:
  "mask_user_info ''@example.com'' = Inl IndexError"
  by (simp add: mask_user_info_def index0_def)

section \<open>Properties of the download pipeline\<close>

subsection \<open>The backend's methods and the stages of a run\<close>

lemma write_blocks_concat:
  "write_blocks bs content n = (content @ concat bs, n + length (concat bs))"
  by (induction bs arbitrary: content n) auto

lemma get_file_size_eq:
  "get_file_size r b w = (reported_size r, w\<lparr>calls := calls w @ [GetFileSize]\<rparr>)"
  by (simp add: get_file_size_def reported_size_def split: sum.splits)

lemma create_backend_recognised:
  "recognised protocol \<Longrightarrow> \<exists>b. create_backend protocol h p u pw t k = Inr b \<and> \<not> connection b"
  by (auto simp: recognised_iff create_backend_def new_backend_def)

lemma create_backend_unrecognised:
  "\<not> recognised protocol \<Longrightarrow>
     create_backend protocol h p u pw t k = Inl (ValueError (msg_unsupported @ protocol))"
  by (simp add: recognised_iff create_backend_def)

lemma session_openedD:
  assumes "session_opened r ps"
  obtains m where "mask_user_info (param_user ps) = Inr m" "recognised (param_protocol ps)"
    "connect_outcome r = Connected"
  using assms unfolding session_opened_def by (cases "mask_user_info (param_user ps)") auto

lemma storage_operations_unrecognised:
  assumes "\<not> recognised (param_protocol ps)"
  shows "storage_operations s r ps temp_file w =
           (Inl (ValueError (msg_unsupported @ param_protocol ps)), w)"
  by (simp add: storage_operations_def create_backend_unrecognised[OF assms])

text \<open>A failing \<open>connect\<close> ends the run with no call of \<open>close\<close>.\<close>

lemma storage_operations_connect_fails:
  assumes "recognised (param_protocol ps)" "connect_outcome r \<noteq> Connected"
  shows "\<exists>e w1. storage_operations s r ps temp_file w = (Inl e, w1)
           \<and> calls w1 = calls w @ [Connect] \<and> files w1 = files w"
proof -
  obtain b where b: "create_backend (param_protocol ps) (param_host ps) None (param_user ps)
      (param_password ps) (ftp_timeout s) (settings_known_hosts_path s) = Inr b"
    using create_backend_recognised[OF assms(1)] by blast
  show ?thesis
    using assms(2)
    by (cases "connect_outcome r") (simp_all add: storage_operations_def b connect_def)
qed

lemma storage_operations_too_large:
  assumes "recognised (param_protocol ps)" "connect_outcome r = Connected"
    "reported_size r > max_file_size s"
  shows "storage_operations s r ps temp_file w =
           (Inl (too_large (reported_size r) (max_file_size s)),
            w\<lparr>calls := calls w @ [Connect, GetFileSize, Close], session_open := False\<rparr>)"
proof -
  obtain b where b: "create_backend (param_protocol ps) (param_host ps) None (param_user ps)
      (param_password ps) (ftp_timeout s) (settings_known_hosts_path s) = Inr b"
    using create_backend_recognised[OF assms(1)] by blast
  show ?thesis
    using assms(2,3)
    by (simp add: storage_operations_def b connect_def get_file_size_eq close_def)
qed

lemma storage_operations_transfer:
  assumes "recognised (param_protocol ps)" "connect_outcome r = Connected"
    "\<not> reported_size r > max_file_size s"
  shows "storage_operations s r ps temp_file w =
           ((case retr_raises r of Some e \<Rightarrow> Inl e
             | None \<Rightarrow> Inr (length (concat (retr_blocks r)))),
            w\<lparr>files := (files w)(temp_file \<mapsto> concat (retr_blocks r)),
              calls := calls w @ [Connect, GetFileSize, DownloadToStream, Close],
              session_open := False\<rparr>)"
proof -
  obtain b where b: "create_backend (param_protocol ps) (param_host ps) None (param_user ps)
      (param_password ps) (ftp_timeout s) (settings_known_hosts_path s) = Inr b"
    using create_backend_recognised[OF assms(1)] by blast
  show ?thesis
    using assms(2,3)
    by (simp add: storage_operations_def b connect_def get_file_size_eq close_def
        download_to_stream_def write_blocks_concat split: option.splits)
qed

lemma handle_exception_world:
  "snd (handle_exception ps temp_file e w) = unlink_if_exists temp_file w"
  by (simp add: handle_exception_def Let_def split: sum.splits)

text \<open>The failure the handler raises does not depend on the state.\<close>

lemma handle_exception_failure:
  "fst (handle_exception ps temp_file e w) = fst (handle_exception ps temp_file e fresh_world)"
  by (simp add: handle_exception_def Let_def split: sum.splits)

lemma pipeline_mask_fails:
  assumes "mask_user_info (param_user ps) = Inl e"
  shows "download_with_storage_backend s r ps temp_file w =
           (Inl (Uncaught e), w\<lparr>files := (files w)(temp_file := None)\<rparr>)"
  using assms
  by (simp add: download_with_storage_backend_def handle_exception_def unlink_if_exists_def)

lemma pipeline_storage_fails:
  assumes "mask_user_info (param_user ps) = Inr m"
    "storage_operations s r ps temp_file (w\<lparr>files := (files w)(temp_file \<mapsto> [])\<rparr>) = (Inl e, w2)"
  shows "download_with_storage_backend s r ps temp_file w =
           (Inl (fst (handle_exception ps temp_file e fresh_world)), unlink_if_exists temp_file w2)"
  using assms handle_exception_world[of ps temp_file e w2]
    handle_exception_failure[of ps temp_file e w2]
  by (cases "handle_exception ps temp_file e w2") (simp add: download_with_storage_backend_def)

lemma pipeline_storage_returns:
  assumes "mask_user_info (param_user ps) = Inr m"
    "storage_operations s r ps temp_file (w\<lparr>files := (files w)(temp_file \<mapsto> [])\<rparr>) = (Inr n, w2)"
    "files w2 temp_file = Some content"
  shows "download_with_storage_backend s r ps temp_file w =
           (if length content = 0
            then (Inl (HTTPException 500 DownloadedFileEmpty), unlink_if_exists temp_file w2)
            else (Inr (temp_file, length content), w2))"
  using assms
  by (simp add: download_with_storage_backend_def)

subsection \<open>The three ways a run goes on once the session is open\<close>

lemma pipeline_too_large:
  assumes "session_opened r ps" "reported_size r > max_file_size s"
  shows "download_with_storage_backend s r ps temp_file w =
           (Inl (fst (handle_exception ps temp_file
                        (too_large (reported_size r) (max_file_size s)) fresh_world)),
            w\<lparr>files := (files w)(temp_file := None),
              calls := calls w @ [Connect, GetFileSize, Close], session_open := False\<rparr>)"
proof -
  from assms(1) obtain m where m: "mask_user_info (param_user ps) = Inr m"
    and rc: "recognised (param_protocol ps)" "connect_outcome r = Connected"
    by (rule session_openedD)
  from pipeline_storage_fails[OF m storage_operations_too_large[OF rc assms(2)]]
  show ?thesis
    by (simp add: unlink_if_exists_def)
qed

lemma pipeline_transfer_raises:
  assumes "session_opened r ps" "\<not> reported_size r > max_file_size s" "retr_raises r = Some e"
  shows "download_with_storage_backend s r ps temp_file w =
           (Inl (fst (handle_exception ps temp_file e fresh_world)),
            w\<lparr>files := (files w)(temp_file := None),
              calls := calls w @ [Connect, GetFileSize, DownloadToStream, Close],
              session_open := False\<rparr>)"
proof -
  from assms(1) obtain m where m: "mask_user_info (param_user ps) = Inr m"
    and rc: "recognised (param_protocol ps)" "connect_outcome r = Connected"
    by (rule session_openedD)
  let ?w1 = "w\<lparr>files := (files w)(temp_file \<mapsto> [])\<rparr>"
  from storage_operations_transfer[OF rc assms(2), of temp_file ?w1] assms(3)
  have "storage_operations s r ps temp_file ?w1 =
          (Inl e, ?w1\<lparr>files := (files ?w1)(temp_file \<mapsto> concat (retr_blocks r)),
              calls := calls ?w1 @ [Connect, GetFileSize, DownloadToStream, Close],
              session_open := False\<rparr>)"
    by simp
  from pipeline_storage_fails[OF m this] show ?thesis
    by (simp add: unlink_if_exists_def)
qed

lemma pipeline_transfer_completes:
  assumes "session_opened r ps" "\<not> reported_size r > max_file_size s" "retr_raises r = None"
  shows "download_with_storage_backend s r ps temp_file w =
           (if length (concat (retr_blocks r)) = 0
            then (Inl (HTTPException 500 DownloadedFileEmpty),
                  w\<lparr>files := (files w)(temp_file := None),
                    calls := calls w @ [Connect, GetFileSize, DownloadToStream, Close],
                    session_open := False\<rparr>)
            else (Inr (temp_file, length (concat (retr_blocks r))),
                  w\<lparr>files := (files w)(temp_file \<mapsto> concat (retr_blocks r)),
                    calls := calls w @ [Connect, GetFileSize, DownloadToStream, Close],
                    session_open := False\<rparr>))"
proof -
  from assms(1) obtain m where m: "mask_user_info (param_user ps) = Inr m"
    and rc: "recognised (param_protocol ps)" "connect_outcome r = Connected"
    by (rule session_openedD)
  let ?w1 = "w\<lparr>files := (files w)(temp_file \<mapsto> [])\<rparr>"
  from storage_operations_transfer[OF rc assms(2), of temp_file ?w1] assms(3)
  have "storage_operations s r ps temp_file ?w1 =
          (Inr (length (concat (retr_blocks r))),
           ?w1\<lparr>files := (files ?w1)(temp_file \<mapsto> concat (retr_blocks r)),
              calls := calls ?w1 @ [Connect, GetFileSize, DownloadToStream, Close],
              session_open := False\<rparr>)"
    by simp
  from pipeline_storage_returns[OF m this, of "concat (retr_blocks r)"] show ?thesis
    by (simp add: unlink_if_exists_def)
qed

lemma example_session_opened:
  "session_opened (stub n blocks e) example_params"
proof -
  have "recognised ''ftp''"
    by (simp add: recognised_iff lower_def lower_char_def)
  moreover have "mask_user_info ''johndoe'' = Inr ''j*****e''"
    by (simp add: mask_user_info_def index0_def)
  ultimately show ?thesis
    by (simp add: session_opened_def stub_def example_params_def)
qed

lemma example_reported_size: "reported_size (stub n blocks e) = n"
  by (simp add: reported_size_def stub_def)

subsection \<open>A size above the ceiling\<close>

lemma set_str_nat: "set (str_nat n) \<subseteq> set ''0123456789''"
proof (induction n rule: str_nat.induct)
  case (1 n)
  have d: "digit_char k \<in> set ''0123456789''" if "k < 10" for k
    using that unfolding digit_char_def by (simp only: nth_mem length_Cons list.size)
  show ?case
  proof (cases "n < 10")
    case True
    then show ?thesis using d[of n] by (subst str_nat.simps) simp
  next
    case False
    then show ?thesis using 1 d[of "n mod 10"] by (subst str_nat.simps) simp
  qed
qed

text \<open>
  The too-large message has no ASCII letter, so none of the handler's textual needles
  occurs in it; the numeric needles 530 and 550 can occur in its two numbers.
\<close>

lemma o_notin_too_large: "CHR ''o'' \<notin> set (str_of (too_large a b))"
proof -
  have "CHR ''o'' \<notin> set (str_int i)" for i
    using set_str_nat[of "nat i"] set_str_nat[of "nat (- i)"] by (auto simp: str_int_def)
  then show ?thesis
    by (simp add: too_large_def msg_too_large_1_def msg_too_large_2_def)
qed

lemma needle_notin_too_large:
  "CHR ''o'' \<in> set needle \<Longrightarrow> \<not> sublist needle (str_of (too_large a b))"
  using o_notin_too_large[of a b] set_mono_sublist[of needle "str_of (too_large a b)"] by auto

lemma handle_exception_too_large:
  assumes "mask_user_info (param_user ps) = Inr m"
    and "\<not> sublist ''530'' (str_of (too_large a b))" "\<not> sublist ''550'' (str_of (too_large a b))"
  shows "is_FileTooLarge ps a b (fst (handle_exception ps temp_file (too_large a b) w))"
proof -
  have "\<not> sublist ''Name or service not known'' (str_of (too_large a b))"
    "\<not> sublist ''Connection refused'' (str_of (too_large a b))"
    "\<not> sublist ''Login incorrect'' (str_of (too_large a b))"
    "\<not> sublist ''Authentication'' (str_of (too_large a b))"
    "\<not> sublist ''No such file'' (str_of (too_large a b))"
    "\<not> sublist ''not found in known_hosts'' (str_of (too_large a b))"
    by (rule needle_notin_too_large, simp)+
  with assms show ?thesis
    by (simp add: handle_exception_def is_FileTooLarge_def)
qed

text \<open>
  What holds of every run whose reported size is above the ceiling: the run fails, the
  backend is asked to connect, to report the size and to close and for nothing else, the
  file is removed; and the failure is the too-large one provided neither 530 nor 550
  occurs in the message.
\<close>

lemma too_large_never_downloads:
  assumes "session_opened r ps" "reported_size r > max_file_size s"
  shows "\<exists>f w'. download_with_storage_backend s r ps temp_file w = (Inl f, w')
           \<and> calls w' = calls w @ [Connect, GetFileSize, Close]
           \<and> files w' temp_file = None \<and> \<not> session_open w'
           \<and> (\<not> sublist ''530'' (str_of (too_large (reported_size r) (max_file_size s)))
               \<and> \<not> sublist ''550'' (str_of (too_large (reported_size r) (max_file_size s)))
               \<longrightarrow> is_FileTooLarge ps (reported_size r) (max_file_size s) f)"
proof -
  from assms(1) obtain m where m: "mask_user_info (param_user ps) = Inr m"
    by (rule session_openedD)
  show ?thesis
    unfolding pipeline_too_large[OF assms]
    using handle_exception_too_large[OF m] by simp
qed

text \<open>
  Claim C1 says that every run whose reported size is above the ceiling fails with
  FileTooLarge, the download never invoked. With the default ceiling of 1073741824 bytes
  and a reported size of 1530000000 bytes the message of the \<open>ValueError\<close> contains
  530, the handler takes its branch for a rejected login, and the run fails with status
  401 and the authorization detail, which is not the too-large failure.
\<close>

theorem C1_too_large_reported_as_unauthorized:
  "session_opened (stub 1530000000 [] None) example_params
   \<and> reported_size (stub 1530000000 [] None) > max_file_size default_settings
   \<and> fst (download_with_storage_backend default_settings (stub 1530000000 [] None)
             example_params ''/tmp/t1'' fresh_world)
       = Inl (HTTPException 401 (AuthorizationFailed ''files.example.com''))
   \<and> \<not> is_FileTooLarge example_params 1530000000 1073741824
          (HTTPException 401 (AuthorizationFailed ''files.example.com''))"
proof -
  let ?r = "stub 1530000000 [] None"
  have so: "session_opened ?r example_params"
    by (rule example_session_opened)
  have big: "reported_size ?r > max_file_size default_settings"
    by (simp add: example_reported_size default_settings_def)
  have s1: "str_int 1530000000 = ''1530000000''"
    by (simp add: str_int_def str_nat.simps digit_char_def)
  have msg: "str_of (too_large 1530000000 1073741824)
       = msg_too_large_1 @ ''1530000000'' @ msg_too_large_2 @ str_int 1073741824 @ '')''"
    by (simp add: too_large_def s1)
  have "sublist ''530''
          ((msg_too_large_1 @ ''1'') @ ''530''
             @ (''000000'' @ msg_too_large_2 @ str_int 1073741824 @ '')''))"
    by (rule sublist_appendI)
  then have sub: "sublist ''530'' (str_of (too_large 1530000000 1073741824))"
    by (simp add: msg)
  have no: "\<not> sublist ''Name or service not known'' (str_of (too_large 1530000000 1073741824))"
    "\<not> sublist ''Connection refused'' (str_of (too_large 1530000000 1073741824))"
    by (rule needle_notin_too_large, simp)+
  have m: "mask_user_info (param_user example_params) = Inr ''j*****e''"
    by (simp add: example_params_def mask_user_info_def index0_def)
  have "fst (handle_exception example_params ''/tmp/t1'' (too_large 1530000000 1073741824)
               fresh_world)
          = HTTPException 401 (AuthorizationFailed ''files.example.com'')"
    using sub no by (simp add: handle_exception_def m) (simp add: example_params_def)
  then have "fst (download_with_storage_backend default_settings ?r example_params
                    ''/tmp/t1'' fresh_world)
       = Inl (HTTPException 401 (AuthorizationFailed ''files.example.com''))"
    using pipeline_too_large[OF so big, of "''/tmp/t1''" fresh_world]
    by (simp add: example_reported_size default_settings_def)
  with so big show ?thesis
    by (simp add: is_FileTooLarge_def)
qed

subsection \<open>Cleanup on failure\<close>

text \<open>
  Every run that fails after \<open>connect\<close> returned, at the size check, during the
  transfer or at the final size check, ends with the session closed and the temporary
  file gone, and \<open>close\<close> is the last call on the backend, made once.
\<close>

lemma failed_run_cleanup:
  assumes "session_opened r ps"
    and "download_with_storage_backend s r ps temp_file w = (Inl f, w')"
  shows "\<not> session_open w' \<and> files w' temp_file = None
         \<and> (calls w' = calls w @ [Connect, GetFileSize, Close]
            \<or> calls w' = calls w @ [Connect, GetFileSize, DownloadToStream, Close])"
proof (cases "reported_size r > max_file_size s")
  case True
  from assms(2) show ?thesis
    unfolding pipeline_too_large[OF assms(1) True] by auto
next
  case False
  show ?thesis
  proof (cases "retr_raises r")
    case (Some e)
    from assms(2) show ?thesis
      unfolding pipeline_transfer_raises[OF assms(1) False Some] by auto
  next
    case None
    from assms(2) show ?thesis
      unfolding pipeline_transfer_completes[OF assms(1) False None]
      by (auto split: if_splits)
  qed
qed

lemma failed_run_cleanup_example:
  "session_opened (stub 10 [''partial''] (Some (OtherError ''timed out''))) example_params
   \<and> isl (fst (download_with_storage_backend default_settings
                  (stub 10 [''partial''] (Some (OtherError ''timed out'')))
                  example_params ''/tmp/t2'' fresh_world))
   \<and> \<not> session_open (snd (download_with_storage_backend default_settings
                  (stub 10 [''partial''] (Some (OtherError ''timed out'')))
                  example_params ''/tmp/t2'' fresh_world))
   \<and> files (snd (download_with_storage_backend default_settings
                  (stub 10 [''partial''] (Some (OtherError ''timed out'')))
                  example_params ''/tmp/t2'' fresh_world)) ''/tmp/t2'' = None"
proof -
  let ?r = "stub 10 [''partial''] (Some (OtherError ''timed out''))"
  let ?run = "download_with_storage_backend default_settings ?r example_params
                ''/tmp/t2'' fresh_world"
  have so: "session_opened ?r example_params"
    by (rule example_session_opened)
  have small: "\<not> reported_size ?r > max_file_size default_settings"
    by (simp add: example_reported_size default_settings_def)
  have raises: "retr_raises ?r = Some (OtherError ''timed out'')"
    by (simp add: stub_def)
  obtain f w' where run: "?run = (Inl f, w')"
    using pipeline_transfer_raises[OF so small raises] by blast
  from failed_run_cleanup[OF so run] so show ?thesis
    by (simp add: run)
qed

text \<open>
  The temporary file is gone after every failing run, also one that fails before a
  session is open.
\<close>

lemma failure_removes_temp_file:
  assumes "download_with_storage_backend s r ps temp_file w = (Inl f, w')"
  shows "files w' temp_file = None"
proof (cases "mask_user_info (param_user ps)")
  case (Inl e)
  from assms show ?thesis
    unfolding pipeline_mask_fails[OF Inl] by auto
next
  case (Inr m)
  let ?w1 = "w\<lparr>files := (files w)(temp_file \<mapsto> [])\<rparr>"
  show ?thesis
  proof (cases "recognised (param_protocol ps)")
    case False
    from assms show ?thesis
      unfolding pipeline_storage_fails[OF Inr storage_operations_unrecognised[OF False]]
      by (auto simp: unlink_if_exists_def)
  next
    case True
    show ?thesis
    proof (cases "connect_outcome r = Connected")
      case False
      from storage_operations_connect_fails[OF True False, of s temp_file ?w1]
      obtain e w1 where so: "storage_operations s r ps temp_file ?w1 = (Inl e, w1)"
        by blast
      from assms show ?thesis
        unfolding pipeline_storage_fails[OF Inr so]
        by (auto simp: unlink_if_exists_def)
    next
      case c: True
      have "session_opened r ps"
        using Inr True c by (simp add: session_opened_def)
      from failed_run_cleanup[OF this assms] show ?thesis by simp
    qed
  qed
qed

text \<open>
  A run whose \<open>connect\<close> raises never enters the \<open>with\<close> block, so \<open>close\<close> is not
  called: the run ends with the calls it started with and \<open>Connect\<close>, and a session the
  server opened before the login failed stays open.
\<close>

lemma rejected_connect_never_closes:
  assumes "\<not> isl (mask_user_info (param_user ps))" "recognised (param_protocol ps)"
    and "connect_outcome r = Rejected e"
  shows "\<exists>f w'. download_with_storage_backend s r ps temp_file w = (Inl f, w')
           \<and> session_open w' \<and> calls w' = calls w @ [Connect] \<and> files w' temp_file = None"
proof -
  from assms(1) obtain m where m: "mask_user_info (param_user ps) = Inr m"
    by (cases "mask_user_info (param_user ps)") auto
  obtain b where b: "create_backend (param_protocol ps) (param_host ps) None (param_user ps)
      (param_password ps) (ftp_timeout s) (settings_known_hosts_path s) = Inr b"
    using create_backend_recognised[OF assms(2)] by blast
  let ?w1 = "w\<lparr>files := (files w)(temp_file \<mapsto> [])\<rparr>"
  have "storage_operations s r ps temp_file ?w1 =
          (Inl e, ?w1\<lparr>calls := calls ?w1 @ [Connect], session_open := True\<rparr>)"
    using assms(3) by (simp add: storage_operations_def b connect_def)
  from pipeline_storage_fails[OF m this] show ?thesis
    by (simp add: unlink_if_exists_def)
qed

text \<open>
  Claim C2 says that a failing run closes the backend session and deletes the spooled
  file before the failure reaches the caller, and that no failure path leaks an open
  session or a leftover file. The file is deleted on every failing run (lemma
  \<open>failure_removes_temp_file\<close>), and the session is closed on every run that fails after
  \<open>connect\<close> returned (lemma \<open>failed_run_cleanup\<close>). The run below fails inside
  \<open>connect\<close>: the server accepts the connection and rejects the login. The caller gets
  status 401, \<open>close\<close> is never called, and the session is still open.
\<close>

theorem C2_rejected_login_leaves_session_open:
  "connect_outcome rejected_login = Rejected (ftp_connect_error ''530 Login incorrect.'')
   \<and> fst (download_with_storage_backend default_settings rejected_login example_params
             ''/tmp/t2'' fresh_world)
       = Inl (HTTPException 401 (AuthorizationFailed ''files.example.com''))
   \<and> session_open (snd (download_with_storage_backend default_settings rejected_login
                          example_params ''/tmp/t2'' fresh_world))
   \<and> calls (snd (download_with_storage_backend default_settings rejected_login
                   example_params ''/tmp/t2'' fresh_world)) = [Connect]
   \<and> files (snd (download_with_storage_backend default_settings rejected_login
                   example_params ''/tmp/t2'' fresh_world)) ''/tmp/t2'' = None"
proof -
  let ?e = "ftp_connect_error ''530 Login incorrect.''"
  let ?run = "download_with_storage_backend default_settings rejected_login example_params
                ''/tmp/t2'' fresh_world"
  let ?w1 = "fresh_world\<lparr>files := (files fresh_world)(''/tmp/t2'' \<mapsto> [])\<rparr>"
  have out: "connect_outcome rejected_login = Rejected ?e"
    by (simp add: rejected_login_def)
  have m: "mask_user_info (param_user example_params) = Inr ''j*****e''"
    by (simp add: example_params_def mask_user_info_def index0_def)
  have cb: "create_backend (param_protocol example_params) (param_host example_params) None
              (param_user example_params) (param_password example_params)
              (ftp_timeout default_settings) (settings_known_hosts_path default_settings)
            = Inr (new_backend FTPBackend ''files.example.com'' 21 ''johndoe'' ''secret'' 30 None)"
    by (simp add: create_backend_def example_params_def default_settings_def lower_def
        lower_char_def port_or_def)
  have so: "storage_operations default_settings rejected_login example_params ''/tmp/t2'' ?w1
              = (Inl ?e, ?w1\<lparr>calls := calls ?w1 @ [Connect], session_open := True\<rparr>)"
    by (simp add: storage_operations_def cb connect_def out)
  have msg: "str_of ?e = msg_cannot_connect_ftp @ ''530'' @ '' Login incorrect.''"
    by (simp add: ftp_connect_error_def)
  have sub: "sublist ''530'' (str_of ?e)"
    unfolding msg by (rule sublist_appendI)
  have "CHR ''k'' \<notin> set (str_of ?e)" "CHR ''f'' \<notin> set (str_of ?e)"
    by (simp_all add: ftp_connect_error_def msg_cannot_connect_ftp_def)
  then have no: "\<not> sublist ''Name or service not known'' (str_of ?e)"
    "\<not> sublist ''Connection refused'' (str_of ?e)"
    using set_mono_sublist[of "''Name or service not known''" "str_of ?e"]
      set_mono_sublist[of "''Connection refused''" "str_of ?e"] by auto
  have h: "fst (handle_exception example_params ''/tmp/t2'' ?e fresh_world)
             = HTTPException 401 (AuthorizationFailed ''files.example.com'')"
    using sub no by (simp add: handle_exception_def m) (simp add: example_params_def)
  have "?run = (Inl (HTTPException 401 (AuthorizationFailed ''files.example.com'')),
                unlink_if_exists ''/tmp/t2''
                  (?w1\<lparr>calls := calls ?w1 @ [Connect], session_open := True\<rparr>))"
    using pipeline_storage_fails[OF m so] by (simp only: h)
  then show ?thesis
    using out by (simp add: unlink_if_exists_def fresh_world_def)
qed

subsection \<open>An empty transfer\<close>

text \<open>
  Claim C3. Every run whose transfer completes having written zero bytes to the
  temporary file fails with the empty-file failure, and the temporary file no longer
  exists afterwards. The size is the measured length of the file, not the reported one.
\<close>

theorem C3_empty_transfer:
  assumes "session_opened r ps" "\<not> reported_size r > max_file_size s"
    and "retr_raises r = None" "length (concat (retr_blocks r)) = 0"
  shows "\<exists>f w'. download_with_storage_backend s r ps temp_file w = (Inl f, w')
           \<and> is_EmptyTransfer f \<and> files w' temp_file = None
           \<and> DownloadToStream \<in> set (calls w')"
  using assms(4) unfolding pipeline_transfer_completes[OF assms(1,2,3)]
  by (simp add: is_EmptyTransfer_def)

theorem C3_empty_transfer_witness:
  "session_opened (stub 2048 [] None) example_params
   \<and> \<not> reported_size (stub 2048 [] None) > max_file_size default_settings
   \<and> retr_raises (stub 2048 [] None) = None
   \<and> length (concat (retr_blocks (stub 2048 [] None))) = 0
   \<and> (\<exists>f w'. download_with_storage_backend default_settings (stub 2048 [] None)
                 example_params ''/tmp/t3'' fresh_world = (Inl f, w')
             \<and> is_EmptyTransfer f \<and> files w' ''/tmp/t3'' = None)"
proof -
  let ?r = "stub 2048 [] None"
  have so: "session_opened ?r example_params"
    by (rule example_session_opened)
  have small: "\<not> reported_size ?r > max_file_size default_settings"
    by (simp add: example_reported_size default_settings_def)
  have completes: "retr_raises ?r = None" and zero: "length (concat (retr_blocks ?r)) = 0"
    by (simp_all add: stub_def)
  from C3_empty_transfer[OF so small completes zero, of "''/tmp/t3''" fresh_world]
    so small completes zero
  show ?thesis by blast
qed

subsection \<open>An unknown size\<close>

text \<open>
  Claim C4. When the backend reports size 0 (the size query answered 0, or failed and
  was turned into 0) under a ceiling that is not negative (config.py admits no ceiling
  below 1), and the transfer then streams N > 0 bytes and completes, the run succeeds
  and returns N, which is the length of the temporary file; 0 is taken neither as an
  empty file nor as a size above the ceiling.
\<close>

theorem C4_unknown_size_succeeds:
  assumes "session_opened r ps" "reported_size r = 0" "0 \<le> max_file_size s"
    and "retr_raises r = None" "length (concat (retr_blocks r)) = N" "N > 0"
  shows "\<exists>w' content. download_with_storage_backend s r ps temp_file w = (Inr (temp_file, N), w')
           \<and> files w' temp_file = Some content \<and> length content = N"
proof -
  have "\<not> reported_size r > max_file_size s"
    using assms(2,3) by simp
  from pipeline_transfer_completes[OF assms(1) this assms(4)] assms(5,6)
  show ?thesis by simp
qed

theorem C4_unknown_size_succeeds_witness:
  "session_opened (stub 0 [replicate 500 (CHR ''x'')] None) example_params
   \<and> reported_size (stub 0 [replicate 500 (CHR ''x'')] None) = 0
   \<and> 0 \<le> max_file_size default_settings
   \<and> (\<exists>w' content.
         download_with_storage_backend default_settings
           (stub 0 [replicate 500 (CHR ''x'')] None) example_params ''/tmp/t4'' fresh_world
           = (Inr (''/tmp/t4'', 500), w')
         \<and> files w' ''/tmp/t4'' = Some content \<and> length content = 500)"
proof -
  let ?r = "stub 0 [replicate 500 (CHR ''x'')] None"
  have so: "session_opened ?r example_params"
    by (rule example_session_opened)
  have unknown: "reported_size ?r = 0"
    by (rule example_reported_size)
  have ceiling: "0 \<le> max_file_size default_settings"
    by (simp add: default_settings_def)
  have completes: "retr_raises ?r = None"
    and n: "length (concat (retr_blocks ?r)) = 500" and pos: "(500::nat) > 0"
    by (simp_all add: stub_def)
  from C4_unknown_size_succeeds[OF so unknown ceiling completes n pos, of "''/tmp/t4''" fresh_world]
    so unknown ceiling
  show ?thesis by blast
qed

text \<open>A size query that raises is reported as 0, so the claim covers it.\<close>

lemma failed_size_query_reports_zero:
  "size_reply r = Inl e \<Longrightarrow> reported_size r = 0"
  by (simp add: reported_size_def)

section \<open>Properties of the path sanitizer\<close>

subsection \<open>Two-character substrings, splitting and joining\<close>

lemma sublist2_simps:
  "sublist [a, b] [] = False"
  "sublist [a, b] [x] = False"
  "sublist [a, b] (x # y # ys) \<longleftrightarrow> (x = a \<and> y = b) \<or> sublist [a, b] (y # ys)"
  by (auto simp: sublist_Cons_right)

lemma sublist2_append:
  "sublist [a, b] (xs @ ys) \<longleftrightarrow>
     sublist [a, b] xs \<or> sublist [a, b] ys \<or> (xs \<noteq> [] \<and> ys \<noteq> [] \<and> last xs = a \<and> hd ys = b)"
proof (induction xs)
  case Nil
  then show ?case by simp
next
  case (Cons x xs)
  show ?case
  proof (cases xs)
    case Nil
    then show ?thesis by (cases ys) (auto simp: sublist2_simps)
  next
    case (Cons x' xs')
    with Cons.IH show ?thesis by (auto simp: sublist2_simps)
  qed
qed

lemma split_sep_nonempty: "split_sep p \<noteq> []"
  by (induction p) (auto split: list.splits)

lemma split_sep_hd_prefix: "prefix (hd (split_sep p)) p"
  by (induction p) (auto split: list.splits simp: split_sep_nonempty)

lemma split_sep_sublist: "c \<in> set (split_sep p) \<Longrightarrow> sublist c p"
proof (induction p arbitrary: c)
  case Nil
  then show ?case by simp
next
  case (Cons x xs)
  show ?case
  proof (cases "x = CHR ''/''")
    case True
    with Cons show ?thesis by (auto simp: sublist_Cons_right)
  next
    case False
    obtain w ws where s: "split_sep xs = w # ws"
      using split_sep_nonempty[of xs] by (cases "split_sep xs") auto
    have "prefix w xs" using split_sep_hd_prefix[of xs] s by simp
    with Cons False s show ?thesis by (auto simp: sublist_Cons_right)
  qed
qed

lemma split_sep_no_slash: "c \<in> set (split_sep p) \<Longrightarrow> CHR ''/'' \<notin> set c"
proof (induction p arbitrary: c)
  case Nil
  then show ?case by simp
next
  case (Cons x xs)
  then show ?case
    using split_sep_nonempty[of xs] by (cases "split_sep xs") (auto split: if_splits)
qed

lemma normpath_loop_no_dotdot:
  "''..'' \<notin> set comps \<Longrightarrow> normpath_loop k comps acc = acc @ filter kept comps"
  by (induction comps arbitrary: acc) (auto simp: kept_def)

lemma split_sep_plain_append:
  "CHR ''/'' \<notin> set x \<Longrightarrow> split_sep (x @ CHR ''/'' # rest) = x # split_sep rest"
  by (induction x) auto

lemma split_sep_plain: "CHR ''/'' \<notin> set x \<Longrightarrow> split_sep x = [x]"
  by (induction x) auto

lemma split_sep_join_sep:
  "cs \<noteq> [] \<Longrightarrow> \<forall>c\<in>set cs. CHR ''/'' \<notin> set c \<Longrightarrow> split_sep (join_sep cs) = cs"
  by (induction cs rule: join_sep.induct) (auto simp: split_sep_plain split_sep_plain_append)

lemma plain_ends: "plain c \<Longrightarrow> hd c \<noteq> CHR ''/'' \<and> last c \<noteq> CHR ''/''"
  unfolding plain_def by (metis hd_in_set last_in_set)

lemma join_sep_hd:
  "cs \<noteq> [] \<Longrightarrow> \<forall>c\<in>set cs. plain c \<Longrightarrow> join_sep cs \<noteq> [] \<and> hd (join_sep cs) \<noteq> CHR ''/''"
proof (induction cs rule: join_sep.induct)
  case 1
  then show ?case by simp
next
  case (2 x)
  then show ?case using plain_ends[of x] by (simp add: plain_def)
next
  case (3 x y ys)
  then show ?case using plain_ends[of x] by (simp add: plain_def hd_append)
qed

lemma join_sep_set: "set (join_sep cs) \<subseteq> insert (CHR ''/'') (\<Union>c\<in>set cs. set c)"
  by (induction cs rule: join_sep.induct) auto

lemma sublist2_set: "sublist [a, b] xs \<Longrightarrow> a \<in> set xs \<and> b \<in> set xs"
  using set_mono_sublist[of "[a, b]" xs] by auto

lemma join_sep_no_doubled:
  "\<forall>c\<in>set cs. plain c \<Longrightarrow> \<not> sublist ''//'' (join_sep cs)"
proof (induction cs rule: join_sep.induct)
  case 1
  then show ?case by simp
next
  case (2 x)
  then show ?case using sublist2_set[of "CHR ''/''" "CHR ''/''" x] by (auto simp: plain_def)
next
  case (3 x y ys)
  have "\<not> sublist ''//'' x"
    using 3 sublist2_set[of "CHR ''/''" "CHR ''/''" x] by (auto simp: plain_def)
  moreover have "last x \<noteq> CHR ''/''"
    using 3 plain_ends[of x] by simp
  moreover have "join_sep (y # ys) \<noteq> [] \<and> hd (join_sep (y # ys)) \<noteq> CHR ''/''"
    using 3 by (intro join_sep_hd) auto
  moreover have "\<not> sublist ''//'' (join_sep (y # ys))"
    using 3 by simp
  ultimately show ?case
    by (cases "join_sep (y # ys)") (auto simp: sublist2_append sublist2_simps)
qed

lemma join_sep_no_dotdot:
  "\<forall>c\<in>set cs. \<not> sublist ''..'' c \<Longrightarrow> \<not> sublist ''..'' (join_sep cs)"
proof (induction cs rule: join_sep.induct)
  case 1
  then show ?case by simp
next
  case (2 x)
  then show ?case by simp
next
  case (3 x y ys)
  then show ?case
    by (cases "join_sep (y # ys)") (auto simp: sublist2_append sublist2_simps)
qed

lemma normpath_rooted:
  assumes "prefix ''/'' p" "\<not> sublist ''..'' p" "\<not> sublist ''//'' p"
  shows "normpath p = normal_form p"
proof -
  have ne: "p \<noteq> []" using assms(1) by auto
  have "\<not> prefix ''//'' p"
    using assms(3) prefix_imp_sublist by blast
  moreover have "''..'' \<notin> set (split_sep p)"
    using assms(2) split_sep_sublist by blast
  ultimately show ?thesis
    using assms(1) ne
    by (simp add: normpath_def normal_form_def normpath_loop_no_dotdot)
qed

lemma re_match_of_pattern: "spec_path_pattern W p \<Longrightarrow> re_match_valid_path W p"
  by (cases p) (auto simp: spec_path_pattern_def re_match_valid_path_def list_all_iff dropWhile_eq_Nil_conv)

lemma sanitize_path_valid:
  assumes "spec_path_pattern W p" "\<not> sublist ''..'' p" "\<not> sublist ''//'' p"
  shows "sanitize_path W p = Inr (normal_form p)"
proof -
  have pre: "prefix ''/'' p"
    using assms(1) by (cases p) (auto simp: spec_path_pattern_def)
  then have ne: "p \<noteq> []" by auto
  show ?thesis
    using assms ne re_match_of_pattern[OF assms(1)]
    by (simp add: sanitize_path_def normpath_rooted[OF pre assms(2,3)]) (simp add: normal_form_def)
qed

lemma kept_components:
  assumes "\<not> sublist ''..'' p" "c \<in> set (filter kept (split_sep p))"
  shows "plain c" "\<not> sublist ''..'' c" "kept c" "set c \<subseteq> set p"
proof -
  from assms(2) have c: "c \<in> set (split_sep p)" "kept c" by auto
  show "plain c" using c split_sep_no_slash[of c p] by (simp add: plain_def kept_def)
  have s: "sublist c p" using c(1) by (rule split_sep_sublist)
  show "\<not> sublist ''..'' c" using assms(1) s sublist_order.order_trans by blast
  show "kept c" by fact
  show "set c \<subseteq> set p" using s by (rule set_mono_sublist)
qed

lemma normal_form_properties:
  assumes "spec_path_pattern W p" "\<not> sublist ''..'' p"
  shows "spec_path_pattern W (normal_form p)" "\<not> sublist ''..'' (normal_form p)"
    "\<not> sublist ''//'' (normal_form p)" "normal_form (normal_form p) = normal_form p"
proof -
  let ?cs = "filter kept (split_sep p)"
  note k = kept_components[OF assms(2)]
  have cls: "\<forall>c\<in>set p. class_char W c"
    using assms(1) by (cases p) (auto simp: spec_path_pattern_def list_all_iff class_char_def)
  have "set (join_sep ?cs) \<subseteq> insert (CHR ''/'') (set p)"
    using join_sep_set[of ?cs] k(4) by blast
  then show "spec_path_pattern W (normal_form p)"
    using cls by (auto simp: normal_form_def spec_path_pattern_def list_all_iff class_char_def)
  have pl: "\<forall>c\<in>set ?cs. plain c" and nd: "\<forall>c\<in>set ?cs. \<not> sublist ''..'' c"
    using k by blast+
  have j1: "\<not> sublist ''//'' (join_sep ?cs)" using pl by (rule join_sep_no_doubled)
  have j2: "\<not> sublist ''..'' (join_sep ?cs)" using nd by (rule join_sep_no_dotdot)
  show "\<not> sublist ''..'' (normal_form p)"
    using j2 by (cases "join_sep ?cs") (auto simp: normal_form_def sublist2_simps)
  show "\<not> sublist ''//'' (normal_form p)"
  proof (cases "?cs = []")
    case True
    then show ?thesis by (simp add: normal_form_def sublist2_simps)
  next
    case False
    with join_sep_hd[OF False pl] j1 show ?thesis
      by (cases "join_sep ?cs") (auto simp: normal_form_def sublist2_simps)
  qed
  show "normal_form (normal_form p) = normal_form p"
  proof (cases "?cs = []")
    case True
    then show ?thesis by (simp add: normal_form_def kept_def)
  next
    case False
    have "split_sep (join_sep ?cs) = ?cs"
      using False pl by (intro split_sep_join_sep) (auto simp: plain_def)
    then have "split_sep (normal_form p) = [] # ?cs"
      by (simp add: normal_form_def)
    then have "filter kept (split_sep (normal_form p)) = ?cs"
      by (simp add: kept_def[of "[]"])
    then show ?thesis
      unfolding normal_form_def[of "normal_form p"] by (simp add: normal_form_def)
  qed
qed

text \<open>
  Claim C6. For every valid absolute path (a leading separator followed only by
  characters of the class, no \<open>..\<close>, no doubled separator) sanitize succeeds, sanitizing
  its result again gives the same result, and the result starts with exactly one
  separator.
\<close>

theorem C6_sanitize_idempotent:
  assumes "spec_path_pattern W p" "\<not> sublist ''..'' p" "\<not> sublist ''//'' p"
  shows "\<exists>q. sanitize_path W p = Inr q \<and> sanitize_path W q = Inr q
             \<and> prefix ''/'' q \<and> \<not> prefix ''//'' q"
proof -
  note n = normal_form_properties[OF assms(1,2)]
  have "sanitize_path W (normal_form p) = Inr (normal_form p)"
    using sanitize_path_valid[OF n(1,2,3)] n(4) by simp
  moreover have "prefix ''/'' (normal_form p)"
    by (simp add: normal_form_def)
  moreover have "\<not> prefix ''//'' (normal_form p)"
    using n(3) prefix_imp_sublist by blast
  ultimately show ?thesis
    using sanitize_path_valid[OF assms] by simp
qed

text \<open>
  The checks of \<open>sanitize_path\<close>: each of the four conditions rejects the path, and a
  path with \<open>..\<close> is rejected whether or not the pattern matches it.
\<close>

lemma sanitize_path_rejects:
  assumes "p = [] \<or> \<not> re_match_valid_path W p \<or> sublist ''..'' p \<or> sublist ''//'' p"
  shows "\<exists>e. sanitize_path W p = Inl e"
  using assms by (auto simp: sanitize_path_def)

lemma sanitize_path_traversal:
  "sublist ''..'' p \<Longrightarrow>
     sanitize_path W p = Inl (if re_match_valid_path W p then Traversal else BadCharacters)"
  by (auto simp: sanitize_path_def)

lemma newline_not_class: "\<not> class_char W (CHR 0x0A)"
  by (simp add: class_char_def word_char_def)

text \<open>
  What the pattern accepts: the paths of the spec's description, and those followed by
  one newline.
\<close>

lemma re_match_valid_path_iff:
  "re_match_valid_path W p \<longleftrightarrow>
     spec_path_pattern W p \<or> (\<exists>q. p = q @ [CHR 0x0A] \<and> spec_path_pattern W q)"
proof (cases p)
  case Nil
  then show ?thesis by (simp add: re_match_valid_path_def spec_path_pattern_def)
next
  case (Cons c cs)
  have a: "dropWhile (class_char W) cs = [] \<longleftrightarrow> list_all (class_char W) cs"
    by (simp add: dropWhile_eq_Nil_conv list_all_iff)
  have b: "dropWhile (class_char W) cs = [CHR 0x0A] \<longleftrightarrow>
             (\<exists>r. cs = r @ [CHR 0x0A] \<and> list_all (class_char W) r)"
  proof
    assume d: "dropWhile (class_char W) cs = [CHR 0x0A]"
    have "cs = takeWhile (class_char W) cs @ [CHR 0x0A]"
      using takeWhile_dropWhile_id[of "class_char W" cs] d by simp
    moreover have "list_all (class_char W) (takeWhile (class_char W) cs)"
      by (simp add: list_all_iff) (meson set_takeWhileD)
    ultimately show "\<exists>r. cs = r @ [CHR 0x0A] \<and> list_all (class_char W) r" by blast
  next
    assume "\<exists>r. cs = r @ [CHR 0x0A] \<and> list_all (class_char W) r"
    then obtain r where "cs = r @ [CHR 0x0A]" "list_all (class_char W) r" by blast
    then show "dropWhile (class_char W) cs = [CHR 0x0A]"
      using newline_not_class[of W] by (simp add: list_all_iff dropWhile_append)
  qed
  show ?thesis
  proof
    assume "re_match_valid_path W p"
    then show "spec_path_pattern W p \<or> (\<exists>q. p = q @ [CHR 0x0A] \<and> spec_path_pattern W q)"
      using Cons a b by (auto simp: re_match_valid_path_def spec_path_pattern_def)
  next
    assume r: "spec_path_pattern W p \<or> (\<exists>q. p = q @ [CHR 0x0A] \<and> spec_path_pattern W q)"
    then show "re_match_valid_path W p"
    proof
      assume "spec_path_pattern W p"
      then show ?thesis by (rule re_match_of_pattern)
    next
      assume "\<exists>q. p = q @ [CHR 0x0A] \<and> spec_path_pattern W q"
      then obtain q where q: "p = q @ [CHR 0x0A]" "spec_path_pattern W q" by blast
      then obtain r where "q = CHR ''/'' # r" "list_all (class_char W) r"
        by (cases q) (auto simp: spec_path_pattern_def)
      with q Cons b show ?thesis
        by (auto simp: re_match_valid_path_def)
    qed
  qed
qed

text \<open>
  Claim C5 says that sanitize fails on every path that is empty, contains \<open>..\<close>,
  contains a doubled separator, or is not a leading separator followed only by word
  characters, hyphens, dots and separators. The first three hold (lemma
  \<open>sanitize_path_rejects\<close>), and the \<open>..\<close> check rejects whatever the pattern says. The
  last fails: the pattern's \<open>$\<close> lets one final newline through, so a path that ends in
  a newline is returned, newline included.
\<close>

theorem C5_trailing_newline_accepted:
  "\<not> spec_path_pattern W (''/abc'' @ [CHR 0x0A])
   \<and> sanitize_path W (''/abc'' @ [CHR 0x0A]) = Inr (''/abc'' @ [CHR 0x0A])"
proof -
  have c: "class_char W (CHR ''a'')" "class_char W (CHR ''b'')" "class_char W (CHR ''c'')"
    by (simp_all add: class_char_def word_char_def)
  have "\<not> spec_path_pattern W (''/abc'' @ [CHR 0x0A])"
    using newline_not_class[of W] by (simp add: spec_path_pattern_def)
  moreover have "re_match_valid_path W (''/abc'' @ [CHR 0x0A])"
    using newline_not_class[of W] c by (simp add: re_match_valid_path_def)
  moreover have "normpath (''/abc'' @ [CHR 0x0A]) = ''/abc'' @ [CHR 0x0A]"
    by (simp add: normpath_def)
  ultimately show ?thesis
    by (simp add: sanitize_path_def sublist2_simps)
qed

theorem C6_sanitize_idempotent_witness:
  "spec_path_pattern (\<lambda>c. False) ''/a/./b.csv'' \<and> \<not> sublist ''..'' ''/a/./b.csv''
   \<and> \<not> sublist ''//'' ''/a/./b.csv''
   \<and> sanitize_path (\<lambda>c. False) ''/a/./b.csv'' = Inr ''/a/b.csv''
   \<and> sanitize_path (\<lambda>c. False) ''/a/b.csv'' = Inr ''/a/b.csv''"
proof -
  have h: "spec_path_pattern (\<lambda>c. False) ''/a/./b.csv''" "\<not> sublist ''..'' ''/a/./b.csv''"
    "\<not> sublist ''//'' ''/a/./b.csv''"
    by (simp_all add: spec_path_pattern_def class_char_def word_char_def sublist2_simps)
  have e: "sanitize_path (\<lambda>c. False) ''/a/./b.csv'' = Inr ''/a/b.csv''"
    by (simp add: sanitize_path_valid[OF h] normal_form_def kept_def)
  from C6_sanitize_idempotent[OF h] e h show ?thesis
    by auto
qed

end
